theory Spec2Isabelle
  imports Main "HOL-Library.Word"
begin

unbundle bit_operations_syntax

section \<open>JavaScript library operations used by the plugin\<close>

text \<open>
  A JavaScript string is modelled as a \<^typ>\<open>string\<close>: one \<^typ>\<open>char\<close> stands for one
  code unit (so the model covers the strings whose code units are below 256), and
  \<open>length\<close> is the \<open>.length\<close> of the source. Numbers that the source uses as positions,
  line indices and counts are integers, modelled as \<^typ>\<open>int\<close>.
\<close>

definition clamp_index :: "int \<Rightarrow> nat \<Rightarrow> nat" where
  \<comment> \<open>\<open>min(max(i, 0), len)\<close>, the clamping of \<open>String.prototype.substring\<close>\<close>
  "clamp_index i len = (if i < 0 then 0 else if int len < i then len else nat i)"

definition js_substring :: "string \<Rightarrow> int \<Rightarrow> int \<Rightarrow> string" where
  \<comment> \<open>\<open>s.substring(start, end)\<close>: both indices are clamped to \<open>[0, length]\<close> and swapped
      when \<open>start > end\<close>\<close>
  "js_substring s start end =
     (let fs = clamp_index start (length s);
          fe = clamp_index end (length s);
          from = min fs fe;
          to = max fs fe
      in take (to - from) (drop from s))"

definition js_substring_from :: "string \<Rightarrow> int \<Rightarrow> string" where
  \<comment> \<open>\<open>s.substring(start)\<close>: the end defaults to the length\<close>
  "js_substring_from s start = js_substring s start (int (length s))"

fun split_acc :: "char \<Rightarrow> string \<Rightarrow> string \<Rightarrow> string list" where
  "split_acc sep cur [] = [cur]"
| "split_acc sep cur (c # cs) =
     (if c = sep then cur # split_acc sep [] cs else split_acc sep (cur @ [c]) cs)"

definition js_split :: "string \<Rightarrow> char \<Rightarrow> string list" where
  \<comment> \<open>\<open>s.split(sep)\<close> for a separator of one code unit, as in \<open>split("\n")\<close>\<close>
  "js_split s sep = split_acc sep [] s"

fun js_join :: "string \<Rightarrow> string list \<Rightarrow> string" where
  \<comment> \<open>\<open>xs.join(sep)\<close>\<close>
  "js_join sep [] = []"
| "js_join sep [x] = x"
| "js_join sep (x # y # ys) = x @ sep @ js_join sep (y # ys)"

definition slice_index :: "int \<Rightarrow> nat \<Rightarrow> nat" where
  \<comment> \<open>the relative index of \<open>Array.prototype.slice\<close>: a negative index counts from the end\<close>
  "slice_index i len =
     (if i < 0 then nat (max (int len + i) 0) else nat (min i (int len)))"

definition js_slice :: "'a list \<Rightarrow> int \<Rightarrow> int \<Rightarrow> 'a list" where
  \<comment> \<open>\<open>xs.slice(start, end)\<close>\<close>
  "js_slice xs start end =
     (let k = slice_index start (length xs);
          final = slice_index end (length xs)
      in take (final - k) (drop k xs))"

fun map_index :: "('a \<Rightarrow> nat \<Rightarrow> 'b) \<Rightarrow> nat \<Rightarrow> 'a list \<Rightarrow> 'b list" where
  \<comment> \<open>\<open>xs.map((x, i) => f(x, i))\<close>, the index starting at the second argument\<close>
  "map_index f i [] = []"
| "map_index f i (x # xs) = f x i # map_index f (Suc i) xs"

definition digit_char :: "nat \<Rightarrow> char" where
  "digit_char d = ''0123456789'' ! d"

fun nat_to_string :: "nat \<Rightarrow> string" where
  "nat_to_string n =
     (if n < 10 then [digit_char n] else nat_to_string (n div 10) @ [digit_char (n mod 10)])"

declare nat_to_string.simps [simp del]

definition number_to_string :: "int \<Rightarrow> string" where
  \<comment> \<open>the decimal text of an integer, as a template literal produces it\<close>
  "number_to_string i = (if i < 0 then CHR ''-'' # nat_to_string (nat (- i)) else nat_to_string (nat i))"

fun starts_with :: "string \<Rightarrow> string \<Rightarrow> bool" where
  "starts_with s [] = True"
| "starts_with [] (p # ps) = False"
| "starts_with (c # cs) (p # ps) = (c = p \<and> starts_with cs ps)"

fun js_includes :: "string \<Rightarrow> string \<Rightarrow> bool" where
  \<comment> \<open>\<open>s.includes(sub)\<close>: \<open>sub\<close> occurs somewhere in \<open>s\<close>\<close>
  "js_includes [] sub = (sub = [])"
| "js_includes (c # cs) sub = (starts_with (c # cs) sub \<or> js_includes cs sub)"

definition is_whitespace :: "char \<Rightarrow> bool" where
  \<comment> \<open>the white space and line terminators of ECMAScript among the code units below 256:
      tab, line feed, vertical tab, form feed, carriage return, space, no-break space\<close>
  "is_whitespace c = ((of_char c :: nat) \<in> {9, 10, 11, 12, 13, 32, 160})"

definition js_trimStart :: "string \<Rightarrow> string" where
  "js_trimStart s = dropWhile is_whitespace s"

definition js_trimEnd :: "string \<Rightarrow> string" where
  "js_trimEnd s = rev (dropWhile is_whitespace (rev s))"

definition js_trim :: "string \<Rightarrow> string" where
  \<comment> \<open>\<open>s.trim()\<close> removes white space from both ends\<close>
  "js_trim s = js_trimEnd (js_trimStart s)"

definition js_toLowerCase :: "string \<Rightarrow> string" where
  \<comment> \<open>\<open>s.toLowerCase()\<close> on code units below 256: the letters \<open>A\<close> to \<open>Z\<close> and the
      capital letters of Latin-1 (\<open>0xC0\<close> to \<open>0xDE\<close> but \<open>0xD7\<close>) move up by 32\<close>
  "js_toLowerCase s =
     map (\<lambda>c. let n = (of_char c :: nat)
              in if (65 \<le> n \<and> n \<le> 90) \<or> (192 \<le> n \<and> n \<le> 222 \<and> n \<noteq> 215)
                 then char_of (n + 32) else c) s"

definition newline :: char where
  "newline = CHR 0x0A"

section \<open>Cursor utilities\<close>

definition cursor_marker :: string where
  "cursor_marker = ''<|cursor|>''"

definition insertCursorMarker :: "string \<Rightarrow> int \<Rightarrow> string" where
  "insertCursorMarker content position =
     (if position < 0 \<or> position > int (length content) then content
      else
        let beforeCursor = js_substring content 0 position;
            afterCursor = js_substring_from content position
        in beforeCursor @ cursor_marker @ afterCursor)"

definition getCursorLineNumber :: "string \<Rightarrow> int \<Rightarrow> int" where
  "getCursorLineNumber content position =
     int (length (js_split (js_substring content 0 position) newline)) - 1"

definition context_slice :: "string list \<Rightarrow> int \<Rightarrow> int \<Rightarrow> string list" where
  \<comment> \<open>the numbered lines of \<open>getContextLines\<close>, before they are joined\<close>
  "context_slice lines cursorLine linesBefore =
     (let startLine = max 0 (cursorLine - linesBefore);
          endLine = cursorLine
      in map_index (\<lambda>line i. number_to_string (startLine + int i + 1) @ '': '' @ line) 0
           (js_slice lines startLine (endLine + 1)))"

definition getContextLines :: "string list \<Rightarrow> int \<Rightarrow> int \<Rightarrow> string" where
  "getContextLines lines cursorLine linesBefore =
     js_join [newline] (context_slice lines cursorLine linesBefore)"

section \<open>MD5, as \<open>crypto.createHash("md5")\<close> computes it\<close>

type_synonym byte = "8 word"
type_synonym u32 = "32 word"

definition utf8_encode_char :: "char \<Rightarrow> byte list" where
  "utf8_encode_char c =
     (let n = (of_char c :: nat)
      in if n < 128 then [of_nat n]
         else [of_nat (192 + n div 64), of_nat (128 + n mod 64)])"

definition utf8_encode :: "string \<Rightarrow> byte list" where
  "utf8_encode s = concat (map utf8_encode_char s)"

definition md5_K :: "u32 list" where
  "md5_K =
    [0xd76aa478, 0xe8c7b756, 0x242070db, 0xc1bdceee,
     0xf57c0faf, 0x4787c62a, 0xa8304613, 0xfd469501,
     0x698098d8, 0x8b44f7af, 0xffff5bb1, 0x895cd7be,
     0x6b901122, 0xfd987193, 0xa679438e, 0x49b40821,
     0xf61e2562, 0xc040b340, 0x265e5a51, 0xe9b6c7aa,
     0xd62f105d, 0x02441453, 0xd8a1e681, 0xe7d3fbc8,
     0x21e1cde6, 0xc33707d6, 0xf4d50d87, 0x455a14ed,
     0xa9e3e905, 0xfcefa3f8, 0x676f02d9, 0x8d2a4c8a,
     0xfffa3942, 0x8771f681, 0x6d9d6122, 0xfde5380c,
     0xa4beea44, 0x4bdecfa9, 0xf6bb4b60, 0xbebfbc70,
     0x289b7ec6, 0xeaa127fa, 0xd4ef3085, 0x04881d05,
     0xd9d4d039, 0xe6db99e5, 0x1fa27cf8, 0xc4ac5665,
     0xf4292244, 0x432aff97, 0xab9423a7, 0xfc93a039,
     0x655b59c3, 0x8f0ccc92, 0xffeff47d, 0x85845dd1,
     0x6fa87e4f, 0xfe2ce6e0, 0xa3014314, 0x4e0811a1,
     0xf7537e82, 0xbd3af235, 0x2ad7d2bb, 0xeb86d391]"

definition md5_s :: "nat list" where
  "md5_s =
    [7, 12, 17, 22, 7, 12, 17, 22, 7, 12, 17, 22, 7, 12, 17, 22,
     5, 9, 14, 20, 5, 9, 14, 20, 5, 9, 14, 20, 5, 9, 14, 20,
     4, 11, 16, 23, 4, 11, 16, 23, 4, 11, 16, 23, 4, 11, 16, 23,
     6, 10, 15, 21, 6, 10, 15, 21, 6, 10, 15, 21, 6, 10, 15, 21]"

definition rotl32 :: "u32 \<Rightarrow> nat \<Rightarrow> u32" where
  "rotl32 x n = push_bit n x OR drop_bit (32 - n) x"

definition le_bytes32 :: "u32 \<Rightarrow> byte list" where
  \<comment> \<open>the four bytes of a word, least significant first\<close>
  "le_bytes32 w = map (\<lambda>i. ucast (drop_bit (8 * i) w)) [0..<4]"

definition le_bytes64 :: "64 word \<Rightarrow> byte list" where
  "le_bytes64 w = map (\<lambda>i. ucast (drop_bit (8 * i) w)) [0..<8]"

definition le_word :: "byte list \<Rightarrow> u32" where
  "le_word bs = foldr (\<lambda>b acc. ucast b OR push_bit 8 acc) bs 0"

definition md5_pad :: "byte list \<Rightarrow> byte list" where
  "md5_pad msg =
     msg @ [0x80] @ replicate ((119 - length msg mod 64) mod 64) 0 @ le_bytes64 (8 * of_nat (length msg))"

fun chunks :: "nat \<Rightarrow> nat \<Rightarrow> 'a list \<Rightarrow> 'a list list" where
  \<comment> \<open>the first \<open>k\<close> blocks of \<open>n\<close> elements\<close>
  "chunks n 0 xs = []"
| "chunks n (Suc k) xs = take n xs # chunks n k (drop n xs)"

type_synonym md5_state = "u32 \<times> u32 \<times> u32 \<times> u32"

definition md5_step :: "u32 list \<Rightarrow> md5_state \<Rightarrow> nat \<Rightarrow> md5_state" where
  "md5_step M st i =
     (case st of (A, B, C, D) \<Rightarrow>
        let (F, g) =
              (if i < 16 then ((B AND C) OR (NOT B AND D), i)
               else if i < 32 then ((D AND B) OR (NOT D AND C), (5 * i + 1) mod 16)
               else if i < 48 then (B XOR C XOR D, (3 * i + 5) mod 16)
               else (C XOR (B OR NOT D), (7 * i) mod 16));
            F' = F + A + md5_K ! i + M ! g
        in (D, B + rotl32 F' (md5_s ! i), B, C))"

definition md5_block :: "md5_state \<Rightarrow> byte list \<Rightarrow> md5_state" where
  "md5_block st block =
     (case st of (a0, b0, c0, d0) \<Rightarrow>
        let M = map le_word (chunks 4 16 block)
        in case foldl (md5_step M) st [0..<64] of
             (A, B, C, D) \<Rightarrow> (a0 + A, b0 + B, c0 + C, d0 + D))"

definition md5_digest :: "byte list \<Rightarrow> byte list" where
  "md5_digest msg =
     (let padded = md5_pad msg
      in case foldl md5_block (0x67452301, 0xefcdab89, 0x98badcfe, 0x10325476)
                (chunks 64 (length padded div 64) padded) of
           (a, b, c, d) \<Rightarrow> concat (map le_bytes32 [a, b, c, d]))"

definition hex_digit :: "nat \<Rightarrow> char" where
  "hex_digit d = ''0123456789abcdef'' ! d"

definition hex_of_byte :: "byte \<Rightarrow> string" where
  "hex_of_byte b = [hex_digit (unat (drop_bit 4 b)), hex_digit (unat (b AND 15))]"

definition md5_hex :: "string \<Rightarrow> string" where
  \<comment> \<open>\<open>crypto.createHash("md5").update(s).digest("hex")\<close>\<close>
  "md5_hex s = concat (map hex_of_byte (md5_digest (utf8_encode s)))"

section \<open>The session-aware client (\<open>services/claudeClient.ts\<close>)\<close>

definition getSessionId :: "string \<Rightarrow> string" where
  \<comment> \<open>\<open>hash.slice(a, b)\<close> on a string takes its indices as \<open>slice\<close> on an array does\<close>
  "getSessionId vaultPath =
     (let hash = md5_hex (''obsidian-copilot:'' @ vaultPath)
      in js_slice hash 0 8 @ ''-'' @ js_slice hash 8 12 @ ''-'' @ js_slice hash 12 16 @ ''-'' @
         js_slice hash 16 20 @ ''-'' @ js_slice hash 20 32)"

text \<open>
  An \<open>Error\<close> object carries a message; the errors that \<open>spawn\<close> reports also carry a
  \<open>code\<close> such as \<open>ENOENT\<close>.
\<close>

record js_error =
  code :: "string option"
  message :: string

definition new_Error :: "string \<Rightarrow> js_error" where
  \<comment> \<open>\<open>new Error(msg)\<close>\<close>
  "new_Error msg = \<lparr>code = None, message = msg\<rparr>"

text \<open>
  The child process is outside the program. What the client observes of it is the first
  event that settles the promise of \<open>runClaude\<close>: an \<open>error\<close> event, or a \<open>close\<close> event
  with the exit code (\<open>null\<close> when a signal ended the process) and the text accumulated
  from the standard output and the standard error until then.
\<close>

datatype proc_event =
    ErrorEvent js_error
  | CloseEvent "int option" string string

record invocation =
  program :: string
  argv :: "string list"
  cwd :: string
  stdin :: string

text \<open>
  The operating system: the value of the environment variable \<open>SHELL\<close>, and for every
  history of spawned processes (the latest last) the event that settles the latest one.
\<close>

record os =
  env_SHELL :: "string option"
  outcome :: "invocation list \<Rightarrow> proc_event"

record client =
  activeSessions :: "string set"
  vaultPath :: string

definition allowedTools :: string where
  "allowedTools = ''Read,Grep,Glob,LS''"

definition ClaudeClient :: "string \<Rightarrow> client" where
  \<comment> \<open>the constructor\<close>
  "ClaudeClient path = \<lparr>activeSessions = {}, vaultPath = path\<rparr>"

definition isNewSession :: "client \<Rightarrow> bool" where
  "isNewSession c = (getSessionId (vaultPath c) \<notin> activeSessions c)"

definition exit_code_text :: "int option \<Rightarrow> string" where
  \<comment> \<open>\<open>${code}\<close> for a \<open>number | null\<close>\<close>
  "exit_code_text c = (case c of None \<Rightarrow> ''null'' | Some n \<Rightarrow> number_to_string n)"

definition not_found_message :: string where
  "not_found_message =
     ''Claude CLI not found. Please install Claude Code and ensure \"claude\" is in your PATH.''"

definition settle :: "proc_event \<Rightarrow> js_error + string" where
  \<comment> \<open>the two event handlers of \<open>runClaude\<close>: \<open>Inl\<close> rejects, \<open>Inr\<close> resolves\<close>
  "settle ev =
     (case ev of
        ErrorEvent error \<Rightarrow>
          if code error = Some ''ENOENT'' then Inl (new_Error not_found_message) else Inl error
      | CloseEvent exit_code stdout stderr \<Rightarrow>
          if exit_code = Some 0
          then Inr (if js_trim stdout = [] then ''No response from Claude.'' else js_trim stdout)
          else Inl (new_Error
                 (if stderr = [] then ''Claude exited with code '' @ exit_code_text exit_code
                  else stderr)))"

definition shell_of :: "os \<Rightarrow> string" where
  \<comment> \<open>\<open>process.env.SHELL || "/bin/zsh"\<close>\<close>
  "shell_of sys =
     (case env_SHELL sys of None \<Rightarrow> ''/bin/zsh'' | Some s \<Rightarrow> if s = [] then ''/bin/zsh'' else s)"

definition spawn_claude :: "os \<Rightarrow> client \<Rightarrow> string list \<Rightarrow> string \<Rightarrow> invocation" where
  \<comment> \<open>the process that \<open>runClaude\<close> spawns, with the prompt written to its input\<close>
  "spawn_claude sys c args prompt =
     \<lparr>program = shell_of sys,
      argv = [''-l'', ''-c'', ''claude '' @ js_join '' '' args],
      cwd = vaultPath c,
      stdin = prompt\<rparr>"

definition runClaude ::
  "os \<Rightarrow> client \<Rightarrow> invocation list \<Rightarrow> string list \<Rightarrow> string \<Rightarrow>
   (js_error + string) \<times> invocation list" where
  \<comment> \<open>takes and returns the list of the processes spawned so far\<close>
  "runClaude sys c spawned args prompt =
     (let spawned' = spawned @ [spawn_claude sys c args prompt]
      in (settle (outcome sys spawned'), spawned'))"

text \<open>
  \<open>getFeedback\<close> is modelled as one call run to its end, the processes it spawns ending
  one after the other; calls that overlap in time are not modelled. Everything that
  \<open>runClaude\<close> rejects with is an \<open>Error\<close>, so the test \<open>error instanceof Error\<close> of the
  source always succeeds.
\<close>

definition session_args :: "bool \<Rightarrow> string \<Rightarrow> string list" where
  "session_args isNew sessionId =
     [if isNew then ''--session-id'' else ''--resume'', sessionId, ''-p'',
      ''--allowedTools'', allowedTools]"

definition getFeedback ::
  "os \<Rightarrow> client \<Rightarrow> invocation list \<Rightarrow> string \<Rightarrow>
   (js_error + string) \<times> client \<times> invocation list" where
  \<comment> \<open>one call run to its end: the result, the client and the processes spawned\<close>
  "getFeedback sys c spawned prompt =
     (let sessionId = getSessionId (vaultPath c);
          isNew = (sessionId \<notin> activeSessions c);
          args = session_args isNew sessionId
      in case runClaude sys c spawned args prompt of
           (Inr result, spawned1) \<Rightarrow>
             (Inr result, c\<lparr>activeSessions := insert sessionId (activeSessions c)\<rparr>, spawned1)
         | (Inl error, spawned1) \<Rightarrow>
             if isNew \<and> js_includes (message error) ''already in use''
             then
               let c1 = c\<lparr>activeSessions := insert sessionId (activeSessions c)\<rparr>;
                   resumeArgs = session_args False sessionId
               in case runClaude sys c1 spawned1 resumeArgs prompt of
                    (r, spawned2) \<Rightarrow> (r, c1, spawned2)
             else (Inl error, c, spawned1))"

fun getFeedback_calls ::
  "os \<Rightarrow> client \<Rightarrow> invocation list \<Rightarrow> string list \<Rightarrow> client \<times> invocation list" where
  \<comment> \<open>a sequence of calls of \<open>getFeedback\<close> on one client, one after the other\<close>
  "getFeedback_calls sys c spawned [] = (c, spawned)"
| "getFeedback_calls sys c spawned (prompt # prompts) =
     (case getFeedback sys c spawned prompt of
        (r, c', spawned') \<Rightarrow> getFeedback_calls sys c' spawned' prompts)"

definition canRetryError :: "string \<Rightarrow> bool" where
  \<comment> \<open>\<open>types/copilotState.ts\<close>: whether a retry is offered for an error message\<close>
  "canRetryError error =
     (\<not> js_includes (js_toLowerCase error) ''enoent'' \<and>
      \<not> js_includes (js_toLowerCase error) ''command not found'')"

section \<open>The query state of the dispatcher (\<open>components/CopilotApp\<close>)\<close>

datatype query_state =
    Idle
  | Querying
  | Success string
  | Error string nat

definition status :: "query_state \<Rightarrow> string" where
  \<comment> \<open>the tag of the discriminated union\<close>
  "status q =
     (case q of
        Idle \<Rightarrow> ''idle''
      | Querying \<Rightarrow> ''querying''
      | Success feedback \<Rightarrow> ''success''
      | Error msg occurredAt \<Rightarrow> ''error'')"

text \<open>
  The state of the mounted component. \<open>queryState\<close> and \<open>lastSuccessfulFeedback\<close> are the
  two pieces of React state, as the setters left them. The functions that read
  \<open>queryState.status\<close> do not read that value but the one of the render that created
  them: \<open>handleRetry\<close> is created by every render, and \<open>cancelPendingQueries\<close> by the
  effect that hands the API to the host, which runs after a render whose status changed.
  So the state also holds the status of the last render and the status seen by the API
  that the host holds (none before the effect has run: the host then has no API to call).
  \<open>awaiting\<close> is the number of calls of the debounced function that are suspended at an
  \<open>await\<close> inside their \<open>try\<close> block.

  The timer of \<open>debounce\<close> belongs to the host library and is not modelled: the events
  are what the component does when the client is created, when React renders, when the
  effect publishes the API, when the debounced function is called, when an awaited
  promise settles (with the feedback, or with an error), when the host cancels, and when
  the user asks to retry. A time stamp stands for \<open>new Date()\<close>.
\<close>

record app_state =
  queryState :: query_state
  lastSuccessfulFeedback :: "string option"
  clientInitialized :: bool
  awaiting :: nat
  renderedStatus :: string
  apiStatus :: "string option"

definition initial_app_state :: app_state where
  \<comment> \<open>after the first render, before its effects\<close>
  "initial_app_state =
     \<lparr>queryState = Idle, lastSuccessfulFeedback = None, clientInitialized = False,
      awaiting = 0, renderedStatus = ''idle'', apiStatus = None\<rparr>"

datatype app_event =
    ClientCreated
  | Rendered
  | ApiPublished
  | QueryStarted nat
  | QuerySettled "js_error + string" nat
  | CancelPendingQueries
  | HandleRetry

fun app_step :: "app_state \<Rightarrow> app_event \<Rightarrow> app_state" where
  "app_step s ClientCreated = s\<lparr>clientInitialized := True\<rparr>"
| "app_step s Rendered = s\<lparr>renderedStatus := status (queryState s)\<rparr>"
| "app_step s ApiPublished = s\<lparr>apiStatus := Some (renderedStatus s)\<rparr>"
| "app_step s (QueryStarted now) =
     (if \<not> clientInitialized s
      then s\<lparr>queryState := Error ''Claude client not initialized'' now\<rparr>
      else s\<lparr>queryState := Querying, awaiting := awaiting s + 1\<rparr>)"
| "app_step s (QuerySettled r now) =
     (if awaiting s = 0 then s
      else case r of
             Inr feedback \<Rightarrow>
               s\<lparr>queryState := Success feedback, lastSuccessfulFeedback := Some feedback,
                 awaiting := awaiting s - 1\<rparr>
           | Inl error \<Rightarrow>
               s\<lparr>queryState := Error (message error) now, awaiting := awaiting s - 1\<rparr>)"
| "app_step s CancelPendingQueries =
     (case apiStatus s of
        None \<Rightarrow> s
      | Some st \<Rightarrow> if st = ''querying'' then s\<lparr>queryState := Idle\<rparr> else s)"
| "app_step s HandleRetry =
     (if renderedStatus s = ''error'' then s\<lparr>queryState := Idle\<rparr> else s)"

definition app_run :: "app_state \<Rightarrow> app_event list \<Rightarrow> app_state" where
  "app_run s evs = foldl app_step s evs"

definition followUpPrompt :: "string \<Rightarrow> string \<Rightarrow> int \<Rightarrow> string" where
  \<comment> \<open>the prompt that the debounced function builds for a session that is not new\<close>
  "followUpPrompt filePath content cursorPosition =
     (let lines = js_split content newline;
          cursorLine = getCursorLineNumber content cursorPosition;
          contextLines = getContextLines lines cursorLine 2
      in ''File: '' @ filePath @ [newline] @
         ''Cursor at line: '' @ number_to_string (cursorLine + 1) @ [newline] @
         ''Context:'' @ [newline] @
         contextLines @ [newline] @
         [newline] @
         ''(Use Read tool if you need more context)'')"

section \<open>Notions used to state the properties\<close>

text \<open>The two shapes of process that \<open>getFeedback\<close> can spawn, written out.\<close>

definition create_invocation :: "os \<Rightarrow> client \<Rightarrow> string \<Rightarrow> invocation" where
  "create_invocation sys c prompt =
     \<lparr>program = shell_of sys,
      argv = [''-l'', ''-c'',
              ''claude --session-id '' @ getSessionId (vaultPath c) @
              '' -p --allowedTools Read,Grep,Glob,LS''],
      cwd = vaultPath c,
      stdin = prompt\<rparr>"

definition resume_invocation :: "os \<Rightarrow> client \<Rightarrow> string \<Rightarrow> invocation" where
  "resume_invocation sys c prompt =
     \<lparr>program = shell_of sys,
      argv = [''-l'', ''-c'',
              ''claude --resume '' @ getSessionId (vaultPath c) @
              '' -p --allowedTools Read,Grep,Glob,LS''],
      cwd = vaultPath c,
      stdin = prompt\<rparr>"

definition mark_known :: "client \<Rightarrow> client" where
  \<comment> \<open>the client with the session id of its workspace in the registry\<close>
  "mark_known c = c\<lparr>activeSessions := insert (getSessionId (vaultPath c)) (activeSessions c)\<rparr>"

definition os_script :: "proc_event list \<Rightarrow> os" where
  \<comment> \<open>an operating system whose \<open>n\<close>-th process ends with the \<open>n\<close>-th event of a script\<close>
  "os_script evs =
     \<lparr>env_SHELL = Some ''/bin/bash'',
      outcome = (\<lambda>spawned. if length spawned - 1 < length evs then evs ! (length spawned - 1)
                            else CloseEvent None [] [])\<rparr>"

definition line_start :: "string list \<Rightarrow> nat \<Rightarrow> nat" where
  \<comment> \<open>the position at which line \<open>k\<close> starts in the text of the lines joined by line breaks\<close>
  "line_start ls k = sum_list (map (\<lambda>l. length l + 1) (take k ls))"

definition hex_digits :: string where
  "hex_digits = ''0123456789abcdef''"

section \<open>Properties of the cursor utilities\<close>

text \<open>
  C7: for a position \<open>p\<close> with \<open>0 \<le> p \<le> length content\<close>, \<open>insertCursorMarker\<close> returns the
  characters before \<open>p\<close>, the marker, and the characters from \<open>p\<close> on; for every other
  position it returns the content unchanged. The function is total: no error is raised.
\<close>

theorem insertCursorMarker_spec:
  "(0 \<le> p \<and> p \<le> int (length content) \<longrightarrow>
      insertCursorMarker content p =
        take (nat p) content @ ''<|cursor|>'' @ drop (nat p) content) \<and>
   (\<not> (0 \<le> p \<and> p \<le> int (length content)) \<longrightarrow> insertCursorMarker content p = content)"
  by (auto simp: insertCursorMarker_def js_substring_def js_substring_from_def clamp_index_def
      cursor_marker_def Let_def)

theorem insertCursorMarker_spec_witness:
  "insertCursorMarker ''hello'' 2 = ''he<|cursor|>llo'' \<and>
   insertCursorMarker ''hello'' 5 = ''hello<|cursor|>'' \<and>
   insertCursorMarker ''hello'' 9 = ''hello'' \<and>
   insertCursorMarker ''hello'' (- 1) = ''hello''"
  using insertCursorMarker_spec [of 2 "''hello''"] insertCursorMarker_spec [of 5 "''hello''"]
    insertCursorMarker_spec [of 9 "''hello''"] insertCursorMarker_spec [of "- 1" "''hello''"]
  by simp

lemma split_acc_length: "length (split_acc sep cur s) = Suc (count_list s sep)"
  by (induction s arbitrary: cur) auto

lemma getCursorLineNumber_count:
  "getCursorLineNumber content p = int (count_list (take (nat p) content) newline)"
  by (auto simp: getCursorLineNumber_def js_split_def split_acc_length js_substring_def
      clamp_index_def Let_def)

lemma js_join_Cons: "js_join sep (x # xs) = x @ (if xs = [] then [] else sep @ js_join sep xs)"
  by (cases xs) auto

lemma count_in_line:
  "(\<forall>l \<in> set ls. newline \<notin> set l) \<Longrightarrow> k < length ls \<Longrightarrow> j \<le> length (ls ! k) \<Longrightarrow>
   count_list (take (line_start ls k + j) (js_join [newline] ls)) newline = k"
proof (induction ls arbitrary: k)
  case Nil
  then show ?case by simp
next
  case (Cons x xs)
  show ?case
  proof (cases k)
    case 0
    with Cons.prems show ?thesis
      by (simp add: js_join_Cons line_start_def count_list_0_iff) (meson in_set_takeD)
  next
    case (Suc k')
    with Cons.prems have ne: "xs \<noteq> []" and k': "k' < length xs" and j: "j \<le> length (xs ! k')"
      and nl: "\<forall>l \<in> set xs. newline \<notin> set l" and x: "newline \<notin> set x"
      by auto
    have "count_list (take (line_start xs k' + j) (js_join [newline] xs)) newline = k'"
      using Cons.IH [OF nl k' j] .
    with Suc ne x show ?thesis
      by (simp add: js_join_Cons line_start_def count_list_0_iff)
  qed
qed

lemma split_acc_nonempty: "split_acc sep cur s \<noteq> []"
  by (induction s arbitrary: cur) auto

lemma join_split_acc: "js_join [sep] (split_acc sep cur s) = cur @ s"
  by (induction s arbitrary: cur) (auto simp: js_join_Cons split_acc_nonempty)

lemma split_acc_no_sep:
  "sep \<notin> set cur \<Longrightarrow> \<forall>l \<in> set (split_acc sep cur s). sep \<notin> set l"
proof (induction s arbitrary: cur)
  case Nil
  then show ?case by simp
next
  case (Cons c cs)
  show ?case
  proof (cases "c = sep")
    case True
    with Cons.prems Cons.IH [of "[]"] show ?thesis by simp
  next
    case False
    with Cons.prems Cons.IH [of "cur @ [c]"] show ?thesis by simp
  qed
qed

text \<open>
  C9: \<open>getCursorLineNumber\<close> counts the line breaks strictly before the position. So for
  every content, with its lines as \<open>split\<close> gives them, every position on line \<open>k\<close>, from
  the start of the line to its end (after the \<open>k\<close>-th line break and not after the next
  one), gives \<open>k\<close>.
\<close>

theorem getCursorLineNumber_spec:
  "getCursorLineNumber content position =
     int (count_list (take (nat position) content) newline) \<and>
   (k < length (js_split content newline) \<and> j \<le> length (js_split content newline ! k) \<longrightarrow>
      getCursorLineNumber content (int (line_start (js_split content newline) k + j)) = int k)"
proof -
  let ?ls = "js_split content newline"
  have nl: "\<forall>l \<in> set ?ls. newline \<notin> set l"
    unfolding js_split_def by (rule split_acc_no_sep) simp
  have joined: "js_join [newline] ?ls = content"
    by (simp add: js_split_def join_split_acc)
  have "count_list (take (line_start ?ls k + j) content) newline = k"
    if "k < length ?ls" and "j \<le> length (?ls ! k)"
    using count_in_line [OF nl that] by (simp add: joined)
  moreover have "nat (int (line_start ?ls k + j)) = line_start ?ls k + j"
    by simp
  ultimately show ?thesis
    by (simp only: getCursorLineNumber_count) simp
qed

theorem getCursorLineNumber_spec_witness:
  "js_split ''ab\<newline>cd\<newline>ef'' newline = [''ab'', ''cd'', ''ef''] \<and>
   (1::nat) < length [''ab'', ''cd'', ''ef''] \<and> (2::nat) \<le> length ([''ab'', ''cd'', ''ef''] ! 1) \<and>
   line_start [''ab'', ''cd'', ''ef''] 1 + 2 = 5 \<and>
   getCursorLineNumber ''ab\<newline>cd\<newline>ef'' 5 = 1"
proof -
  have sp: "js_split ''ab\<newline>cd\<newline>ef'' newline = [''ab'', ''cd'', ''ef'']"
    by (simp add: js_split_def newline_def)
  show ?thesis
    using getCursorLineNumber_spec [of "''ab\<newline>cd\<newline>ef''" 5 1 2]
    by (simp add: sp line_start_def)
qed

lemma map_index_nth: "map_index f i xs = map (\<lambda>n. f (xs ! n) (i + n)) [0..<length xs]"
proof (induction xs arbitrary: i)
  case Nil
  then show ?case by simp
next
  case (Cons x xs)
  have "[0..<length (x # xs)] = 0 # map Suc [0..<length xs]"
    by (simp add: upt_conv_Cons map_Suc_upt del: upt_Suc)
  then show ?case using Cons.IH [of "Suc i"] by (simp add: comp_def)
qed

lemma slice_window:
  assumes "e \<le> length lines"
  shows "map_index (\<lambda>line i. g (s + i) line) 0 (take (e - min s (length lines)) (drop (min s (length lines)) lines)) =
         map (\<lambda>i. g i (lines ! i)) [s..<e]"
proof (cases "s < e")
  case False
  then have "e - min s (length lines) = 0"
    using assms by simp
  with False show ?thesis by simp
next
  case True
  then have m: "min s (length lines) = s"
    using assms by simp
  have len: "length (take (e - s) (drop s lines)) = e - s"
    using assms by simp
  have "map_index (\<lambda>line i. g (s + i) line) 0 (take (e - s) (drop s lines)) =
        map (\<lambda>n. g (n + s) (lines ! (n + s))) [0..<e - s]"
    unfolding map_index_nth len using assms by (simp add: add.commute)
  also have "\<dots> = map (\<lambda>i. g i (lines ! i)) (map (\<lambda>n. n + s) [0..<e - s])"
    by (simp add: comp_def)
  also have "\<dots> = map (\<lambda>i. g i (lines ! i)) [s..<e]"
    using True by (simp only: map_add_upt) simp
  finally show ?thesis
    by (simp only: m)
qed

lemma slice_index_le: "slice_index i len \<le> len"
  by (auto simp: slice_index_def max_def min_def)

lemma context_slice_window:
  "context_slice lines cl lb =
     map (\<lambda>i. number_to_string (int i + 1) @ '': '' @ lines ! i)
       [nat (max 0 (cl - lb))..<slice_index (cl + 1) (length lines)]"
proof -
  define s where "s = nat (max 0 (cl - lb))"
  define e where "e = slice_index (cl + 1) (length lines)"
  have s: "max 0 (cl - lb) = int s"
    by (simp add: s_def)
  have e: "e \<le> length lines"
    by (simp add: e_def slice_index_le)
  have k: "slice_index (int s) (length lines) = min s (length lines)"
    by (simp add: slice_index_def min_def)
  have "context_slice lines cl lb =
        map_index (\<lambda>line i. number_to_string (int (s + i) + 1) @ '': '' @ line) 0
          (take (e - min s (length lines)) (drop (min s (length lines)) lines))"
    unfolding context_slice_def Let_def s js_slice_def k e_def by simp
  also have "\<dots> = map (\<lambda>i. number_to_string (int i + 1) @ '': '' @ lines ! i) [s..<e]"
    using slice_window [OF e, of "\<lambda>i line. number_to_string (int i + 1) @ '': '' @ line" s] .
  finally show ?thesis by (simp add: s_def e_def)
qed

lemma context_slice_in_range:
  assumes "0 \<le> cl" "cl < int (length lines)" "0 \<le> lb"
  shows "context_slice lines cl lb =
     map (\<lambda>i. number_to_string (int i + 1) @ '': '' @ lines ! i)
       [nat (max 0 (cl - lb))..<Suc (nat cl)]"
proof -
  have "slice_index (cl + 1) (length lines) = Suc (nat cl)"
    using assms by (simp add: slice_index_def min_def nat_add_distrib)
  then show ?thesis
    by (simp add: context_slice_window)
qed

text \<open>
  C8, as the code has it. For every list of lines, every cursor line and every
  \<open>linesBefore\<close>, \<open>getContextLines\<close> returns the lines with the indices from
  \<open>max 0 (cursorLine - linesBefore)\<close> up to the end that \<open>slice\<close> computes for
  \<open>cursorLine + 1\<close> (which is \<open>cursorLine + 1\<close> for a cursor line inside the list), so no
  index is below 0 and none is outside the list; the window starts at line 0 when
  \<open>linesBefore\<close> exceeds \<open>cursorLine\<close>; each line is prefixed with its 1-based number and
  the lines are joined by line breaks. What does not hold for every input is that a line
  is returned: for a cursor line that is not negative, at least one line is returned
  exactly when the list is not empty, \<open>linesBefore\<close> is not negative and
  \<open>cursorLine - linesBefore\<close> is below the number of lines.
\<close>

theorem getContextLines_window:
  "context_slice lines cursorLine linesBefore =
     map (\<lambda>i. number_to_string (int i + 1) @ '': '' @ lines ! i)
       [nat (max 0 (cursorLine - linesBefore))..<slice_index (cursorLine + 1) (length lines)] \<and>
   getContextLines lines cursorLine linesBefore =
     js_join [newline] (context_slice lines cursorLine linesBefore) \<and>
   slice_index (cursorLine + 1) (length lines) \<le> length lines \<and>
   length (context_slice lines cursorLine linesBefore) =
     slice_index (cursorLine + 1) (length lines) - nat (max 0 (cursorLine - linesBefore)) \<and>
   (cursorLine < linesBefore \<longrightarrow> nat (max 0 (cursorLine - linesBefore)) = 0) \<and>
   (0 \<le> cursorLine \<and> cursorLine < int (length lines) \<longrightarrow>
      slice_index (cursorLine + 1) (length lines) = nat cursorLine + 1) \<and>
   (0 \<le> cursorLine \<longrightarrow>
      (1 \<le> length (context_slice lines cursorLine linesBefore) \<longleftrightarrow>
       lines \<noteq> [] \<and> 0 \<le> linesBefore \<and> cursorLine - linesBefore < int (length lines)))"
proof -
  let ?s = "nat (max 0 (cursorLine - linesBefore))"
  let ?e = "slice_index (cursorLine + 1) (length lines)"
  have len: "length (context_slice lines cursorLine linesBefore) = ?e - ?s"
    by (simp add: context_slice_window)
  have inside: "?e = nat cursorLine + 1" if "0 \<le> cursorLine" "cursorLine < int (length lines)"
    using that by (simp add: slice_index_def min_def nat_add_distrib)
  have some: "1 \<le> ?e - ?s \<longleftrightarrow>
      lines \<noteq> [] \<and> 0 \<le> linesBefore \<and> cursorLine - linesBefore < int (length lines)"
    if "0 \<le> cursorLine"
  proof -
    have "?e = min (nat cursorLine + 1) (length lines)"
      using that by (auto simp: slice_index_def min_def nat_add_distrib)
    then show ?thesis
      using that by (cases lines) (auto simp: max_def min_def)
  qed
  show ?thesis
    using context_slice_window [of lines cursorLine linesBefore] len inside some
    by (simp add: getContextLines_def slice_index_le)
qed

theorem getContextLines_window_witness:
  "context_slice [''a'', ''b'', ''c''] 1 2 = [''1: a'', ''2: b''] \<and>
   getContextLines [''a'', ''b'', ''c''] 1 2 = ''1: a\<newline>2: b'' \<and>
   getContextLines [''a'', ''b'', ''c''] 3 2 = ''2: b\<newline>3: c'' \<and>
   (1::int) < 2 \<and> (0::int) \<le> 1 \<and> (1::int) < int (length [''a'', ''b'', ''c'']) \<and>
   slice_index (1 + 1) (length [''a'', ''b'', ''c'']) = nat 1 + 1 \<and>
   1 \<le> length (context_slice [''a'', ''b'', ''c''] 1 2) \<and>
   1 \<le> length (context_slice [''a'', ''b'', ''c''] 3 2) \<and>
   \<not> 1 \<le> length (context_slice [''a'', ''b'', ''c''] 5 2)"
proof -
  have n: "number_to_string 1 = ''1''" "number_to_string 2 = ''2''" "number_to_string 3 = ''3''"
    by (simp_all add: number_to_string_def nat_to_string.simps digit_char_def)
  have a: "context_slice [''a'', ''b'', ''c''] 1 2 = [''1: a'', ''2: b'']"
    by (simp add: context_slice_def js_slice_def slice_index_def Let_def n)
  have b: "context_slice [''a'', ''b'', ''c''] 3 2 = [''2: b'', ''3: c'']"
    by (simp add: context_slice_def js_slice_def slice_index_def Let_def n)
  show ?thesis
    using getContextLines_window [of "[''a'', ''b'', ''c'']" 1 2]
      getContextLines_window [of "[''a'', ''b'', ''c'']" 3 2]
      getContextLines_window [of "[''a'', ''b'', ''c'']" 5 2]
    by (simp add: a b newline_def)
qed

text \<open>
  The claim of C8 fails in its first part only: a cursor line far enough past the end
  of the list gives no line at all.
\<close>

theorem getContextLines_empty_counterexample:
  "length (context_slice [''a''] 5 2) = 0 \<and> getContextLines [''a''] 5 2 = []"
  by (simp add: getContextLines_def context_slice_def js_slice_def slice_index_def Let_def)

lemma count_list_take_le: "count_list (take n xs) x \<le> count_list xs x"
proof -
  have "count_list xs x = count_list (take n xs) x + count_list (drop n xs) x"
    by (metis append_take_drop_id count_list_append)
  then show ?thesis by simp
qed

text \<open>
  The dispatcher calls \<open>getContextLines\<close> with the lines of the content and the line of
  the cursor in that content: a cursor line inside the list, so the context of a
  follow-up prompt is never empty.
\<close>

lemma cursor_line_in_range:
  "0 \<le> getCursorLineNumber content p \<and>
   getCursorLineNumber content p < int (length (js_split content newline))"
  using count_list_take_le [of "nat p" content newline]
  by (simp add: getCursorLineNumber_count js_split_def split_acc_length)

lemma followUpPrompt_context_nonempty:
  "context_slice (js_split content newline) (getCursorLineNumber content p) 2 \<noteq> []"
proof -
  have r: "0 \<le> getCursorLineNumber content p"
    "getCursorLineNumber content p < int (length (js_split content newline))"
    using cursor_line_in_range [of content p] by simp_all
  have "(0::int) \<le> 2"
    by simp
  from context_slice_in_range [OF r this] show ?thesis
    by simp
qed

lemma followUpPrompt_example:
  "followUpPrompt ''notes/a.md'' ''hello world'' 11 =
     ''File: notes/a.md\<newline>Cursor at line: 1\<newline>Context:\<newline>1: hello world\<newline>\<newline>(Use Read tool if you need more context)''"
proof -
  have n: "number_to_string 1 = ''1''"
    by (simp add: number_to_string_def nat_to_string.simps digit_char_def)
  show ?thesis
    by (simp add: followUpPrompt_def getContextLines_def context_slice_def js_slice_def
        slice_index_def getCursorLineNumber_def js_substring_def clamp_index_def js_split_def
        newline_def Let_def n)
qed

section \<open>Properties of the session-aware client\<close>

lemma spawn_create: "spawn_claude sys c (session_args True (getSessionId (vaultPath c))) prompt = create_invocation sys c prompt"
  by (simp add: spawn_claude_def session_args_def create_invocation_def allowedTools_def)

lemma spawn_resume: "spawn_claude sys c (session_args False (getSessionId (vaultPath c))) prompt = resume_invocation sys c prompt"
  by (simp add: spawn_claude_def session_args_def resume_invocation_def allowedTools_def)

lemma resume_mark_known [simp]: "resume_invocation sys (mark_known c) prompt = resume_invocation sys c prompt"
  by (simp add: resume_invocation_def mark_known_def)

lemma getFeedback_new:
  assumes "isNewSession c"
  shows "getFeedback sys c spawned prompt =
     (case settle (outcome sys (spawned @ [create_invocation sys c prompt])) of
        Inr result \<Rightarrow> (Inr result, mark_known c, spawned @ [create_invocation sys c prompt])
      | Inl error \<Rightarrow>
          if js_includes (message error) ''already in use''
          then (settle (outcome sys (spawned @ [create_invocation sys c prompt, resume_invocation sys c prompt])),
                mark_known c,
                spawned @ [create_invocation sys c prompt, resume_invocation sys c prompt])
          else (Inl error, c, spawned @ [create_invocation sys c prompt]))"
proof -
  have sid: "getSessionId (vaultPath c) \<notin> activeSessions c"
    using assms by (simp add: isNewSession_def)
  have r: "spawn_claude sys (c\<lparr>activeSessions := insert (getSessionId (vaultPath c)) (activeSessions c)\<rparr>)
             (session_args False (getSessionId (vaultPath c))) prompt = resume_invocation sys c prompt"
    by (simp add: spawn_claude_def session_args_def resume_invocation_def allowedTools_def)
  show ?thesis
    by (simp add: getFeedback_def runClaude_def Let_def sid spawn_create r mark_known_def
        split: sum.splits)
qed

lemma getFeedback_known:
  assumes "\<not> isNewSession c"
  shows "getFeedback sys c spawned prompt =
     (case settle (outcome sys (spawned @ [resume_invocation sys c prompt])) of
        Inr result \<Rightarrow> (Inr result, mark_known c, spawned @ [resume_invocation sys c prompt])
      | Inl error \<Rightarrow> (Inl error, c, spawned @ [resume_invocation sys c prompt]))"
proof -
  have sid: "getSessionId (vaultPath c) \<in> activeSessions c"
    using assms by (simp add: isNewSession_def)
  show ?thesis
    by (simp add: getFeedback_def runClaude_def Let_def sid spawn_resume mark_known_def
        split: sum.splits)
qed

lemma vaultPath_mark_known [simp]: "vaultPath (mark_known c) = vaultPath c"
  by (simp add: mark_known_def)

lemma mark_known_not_new [simp]: "\<not> isNewSession (mark_known c)"
  by (simp add: isNewSession_def mark_known_def)

lemma mark_known_idem: "\<not> isNewSession c \<Longrightarrow> mark_known c = c"
  by (simp add: isNewSession_def mark_known_def insert_absorb)

lemma getFeedback_client:
  "fst (snd (getFeedback sys c spawned prompt)) = c \<or>
   fst (snd (getFeedback sys c spawned prompt)) = mark_known c"
proof (cases "isNewSession c")
  case True
  then show ?thesis
    by (simp add: getFeedback_new split: sum.splits)
next
  case False
  then show ?thesis
    by (simp add: getFeedback_known split: sum.splits)
qed

lemma getFeedback_keeps_known:
  "\<not> isNewSession c \<Longrightarrow> fst (snd (getFeedback sys c spawned prompt)) = c"
  using getFeedback_client [of sys c spawned prompt] by (auto simp: mark_known_idem)

lemma getFeedback_calls_keeps_known:
  "\<not> isNewSession c \<Longrightarrow> fst (getFeedback_calls sys c spawned prompts) = c"
proof (induction prompts arbitrary: spawned)
  case Nil
  then show ?case by simp
next
  case (Cons p ps)
  obtain r c' sp' where g: "getFeedback sys c spawned p = (r, c', sp')"
    by (cases "getFeedback sys c spawned p") auto
  with getFeedback_keeps_known [OF Cons.prems, of sys spawned p] have "c' = c" by simp
  with g Cons show ?case by simp
qed

text \<open>
  C2: a freshly constructed client has a new session; \<open>isNewSession\<close> holds exactly when
  the session id of the workspace is absent from the registry; after one successful
  \<open>getFeedback\<close> the session of that workspace is no longer new, and it stays so after any
  further sequence of calls.
\<close>

theorem isNewSession_lifecycle:
  "isNewSession (ClaudeClient v) \<and>
   (isNewSession c \<longleftrightarrow> getSessionId (vaultPath c) \<notin> activeSessions c) \<and>
   (getFeedback sys (ClaudeClient v) spawned prompt = (Inr feedback, c', spawned') \<longrightarrow>
      vaultPath c' = v \<and> \<not> isNewSession c' \<and>
      (\<forall>prompts. \<not> isNewSession (fst (getFeedback_calls sys c' spawned' prompts))))"
proof -
  have new: "isNewSession (ClaudeClient v)"
    by (simp add: isNewSession_def ClaudeClient_def)
  have after: "vaultPath c' = v \<and> \<not> isNewSession c' \<and>
      (\<forall>prompts. \<not> isNewSession (fst (getFeedback_calls sys c' spawned' prompts)))"
    if g: "getFeedback sys (ClaudeClient v) spawned prompt = (Inr feedback, c', spawned')"
  proof -
    have "c' = mark_known (ClaudeClient v)"
      using g new by (auto simp: getFeedback_new split: sum.splits if_splits)
    then have known: "\<not> isNewSession c'" and path: "vaultPath c' = v"
      by (simp_all add: ClaudeClient_def)
    from known show ?thesis
      by (simp add: path getFeedback_calls_keeps_known)
  qed
  have iff: "isNewSession c \<longleftrightarrow> getSessionId (vaultPath c) \<notin> activeSessions c"
    by (simp add: isNewSession_def)
  from new iff after show ?thesis by blast
qed

theorem isNewSession_lifecycle_witness:
  "isNewSession (ClaudeClient ''/vault'') \<and>
   getFeedback (os_script [CloseEvent (Some 0) ''ok'' []]) (ClaudeClient ''/vault'') [] ''hi'' =
     (Inr ''ok'', mark_known (ClaudeClient ''/vault''),
      [create_invocation (os_script [CloseEvent (Some 0) ''ok'' []]) (ClaudeClient ''/vault'') ''hi'']) \<and>
   \<not> isNewSession (mark_known (ClaudeClient ''/vault'')) \<and>
   \<not> isNewSession (fst (getFeedback_calls (os_script [CloseEvent (Some 0) ''ok'' []])
        (mark_known (ClaudeClient ''/vault''))
        [create_invocation (os_script [CloseEvent (Some 0) ''ok'' []]) (ClaudeClient ''/vault'') ''hi'']
        [''a'', ''b'']))"
proof -
  let ?sys = "os_script [CloseEvent (Some 0) ''ok'' []]"
  let ?c = "ClaudeClient ''/vault''"
  have new: "isNewSession ?c"
    by (simp add: isNewSession_def ClaudeClient_def)
  have g: "getFeedback ?sys ?c [] ''hi'' = (Inr ''ok'', mark_known ?c, [create_invocation ?sys ?c ''hi''])"
    by (simp add: getFeedback_new [OF new] os_script_def settle_def js_trim_def js_trimEnd_def
        js_trimStart_def is_whitespace_def)
  show ?thesis
    using new g isNewSession_lifecycle [of "''/vault''" ?c ?sys "[]" "''hi''" "''ok''" "mark_known ?c"
        "[create_invocation ?sys ?c ''hi'']"]
    by (simp del: getFeedback_calls.simps)
qed


lemma settle_clean_exit:
  "settle (CloseEvent (Some 0) out err) =
     Inr (if js_trim out = [] then ''No response from Claude.'' else js_trim out)"
  by (simp add: settle_def)

lemma settle_clean_exit_iff:
  "(\<exists>x. settle ev = Inr x) \<longleftrightarrow> (\<exists>out err. ev = CloseEvent (Some 0) out err)"
  by (cases ev) (auto simp: settle_def)

text \<open>
  C4, as the code has it: when the process that ends a call of \<open>getFeedback\<close> terminates
  with exit status zero, the call records the session id in the registry and returns the
  standard output with the white space trimmed from both of its ends, or the text
  \<open>No response from Claude.\<close> when nothing is left.
\<close>

theorem getFeedback_clean_exit:
  assumes "getFeedback sys c spawned prompt = (r, c', spawned')"
    and "outcome sys spawned' = CloseEvent (Some 0) out err"
  shows "r = Inr (if js_trim out = [] then ''No response from Claude.'' else js_trim out) \<and>
         c' = mark_known c \<and> getSessionId (vaultPath c) \<in> activeSessions c'"
proof -
  have ok: "settle (outcome sys spawned') =
      Inr (if js_trim out = [] then ''No response from Claude.'' else js_trim out)"
    using assms(2) by (simp add: settle_clean_exit)
  have "r = Inr (if js_trim out = [] then ''No response from Claude.'' else js_trim out) \<and>
        c' = mark_known c"
  proof (cases "isNewSession c")
    case True
    show ?thesis
      using assms(1) ok unfolding getFeedback_new [OF True]
      by (auto split: sum.splits if_splits)
  next
    case False
    show ?thesis
      using assms(1) ok unfolding getFeedback_known [OF False]
      by (auto split: sum.splits)
  qed
  then show ?thesis
    by (simp add: mark_known_def)
qed

theorem getFeedback_clean_exit_witness:
  "getFeedback (os_script [CloseEvent (Some 0) (CHR 0x0A # '' two words  '') []])
     (ClaudeClient ''/vault'') [] ''hi'' =
     (Inr ''two words'', mark_known (ClaudeClient ''/vault''),
      [create_invocation (os_script [CloseEvent (Some 0) (CHR 0x0A # '' two words  '') []])
         (ClaudeClient ''/vault'') ''hi'']) \<and>
   getSessionId ''/vault'' \<in> activeSessions (mark_known (ClaudeClient ''/vault''))"
proof -
  let ?sys = "os_script [CloseEvent (Some 0) (CHR 0x0A # '' two words  '') []]"
  let ?c = "ClaudeClient ''/vault''"
  obtain r c' sp' where g: "getFeedback ?sys ?c [] ''hi'' = (r, c', sp')"
    by (cases "getFeedback ?sys ?c [] ''hi''") auto
  have new: "isNewSession ?c"
    by (simp add: isNewSession_def ClaudeClient_def)
  have sp: "sp' = [create_invocation ?sys ?c ''hi'']"
    using g by (simp add: getFeedback_new [OF new] os_script_def settle_def)
  have out: "outcome ?sys sp' = CloseEvent (Some 0) (CHR 0x0A # '' two words  '') []"
    by (simp add: sp os_script_def)
  have t: "js_trim (CHR 0x0A # '' two words  '') = ''two words''"
    by (simp add: js_trim_def js_trimEnd_def js_trimStart_def is_whitespace_def)
  show ?thesis
    using getFeedback_clean_exit [OF g out] g sp
    by (auto simp: t ClaudeClient_def)
qed

text \<open>
  The claim of C4 speaks of trimming trailing white space: white space at the start of
  the output is removed too.
\<close>

theorem getFeedback_leading_space_counterexample:
  "fst (getFeedback (os_script [CloseEvent (Some 0) '' hi'' []]) (ClaudeClient ''/vault'') [] ''p'') =
     Inr ''hi'' \<and>
   js_trimEnd '' hi'' = '' hi'' \<and>
   fst (getFeedback (os_script [CloseEvent (Some 0) '' hi'' []]) (ClaudeClient ''/vault'') [] ''p'') \<noteq>
     Inr (js_trimEnd '' hi'')"
proof -
  have new: "isNewSession (ClaudeClient ''/vault'')"
    by (simp add: isNewSession_def ClaudeClient_def)
  have t: "js_trim '' hi'' = ''hi''" "js_trimEnd '' hi'' = '' hi''"
    by (simp_all add: js_trim_def js_trimEnd_def js_trimStart_def is_whitespace_def)
  show ?thesis
    by (simp add: getFeedback_new [OF new] os_script_def settle_def t)
qed


text \<open>
  How \<open>runClaude\<close> fails: an \<open>error\<close> event of the spawn with the code \<open>ENOENT\<close> gives the
  error that tells the user to install the tool and to check the \<open>PATH\<close>; any other
  \<open>error\<close> event is passed on as it is; a \<open>close\<close> event with anything but exit status
  zero gives an error carrying the standard-error text, or the exit code when that text
  is empty.
\<close>

lemma runClaude_failure_cases:
  "(outcome sys (spawned @ [spawn_claude sys c args prompt]) = ErrorEvent e \<longrightarrow>
      fst (runClaude sys c spawned args prompt) =
        (if code e = Some ''ENOENT'' then Inl (new_Error not_found_message) else Inl e)) \<and>
   js_includes not_found_message ''install'' \<and>
   js_includes not_found_message ''PATH'' \<and>
   (outcome sys (spawned @ [spawn_claude sys c args prompt]) = CloseEvent exit_code out err \<and>
      exit_code \<noteq> Some 0 \<longrightarrow>
      fst (runClaude sys c spawned args prompt) =
        Inl (new_Error (if err = [] then ''Claude exited with code '' @ exit_code_text exit_code
                        else err)))"
proof -
  have "js_includes not_found_message ''install''"
    by (simp add: not_found_message_def)
  moreover have "js_includes not_found_message ''PATH''"
    by (simp add: not_found_message_def)
  ultimately show ?thesis
    by (simp add: runClaude_def settle_def Let_def)
qed

lemma runClaude_failure_examples:
  "fst (runClaude (os_script [ErrorEvent \<lparr>code = Some ''ENOENT'', message = ''spawn /bin/bash ENOENT''\<rparr>])
          (ClaudeClient ''/vault'') [] [''-p''] ''hi'') =
     Inl (new_Error not_found_message) \<and>
   fst (runClaude (os_script [ErrorEvent \<lparr>code = Some ''EACCES'', message = ''spawn /bin/bash EACCES''\<rparr>])
          (ClaudeClient ''/vault'') [] [''-p''] ''hi'') =
     Inl \<lparr>code = Some ''EACCES'', message = ''spawn /bin/bash EACCES''\<rparr> \<and>
   fst (runClaude (os_script [CloseEvent (Some 1) ''partial'' ''boom''])
          (ClaudeClient ''/vault'') [] [''-p''] ''hi'') =
     Inl (new_Error ''boom'') \<and>
   fst (runClaude (os_script [CloseEvent (Some 2) ''partial'' []])
          (ClaudeClient ''/vault'') [] [''-p''] ''hi'') =
     Inl (new_Error ''Claude exited with code 2'') \<and>
   fst (runClaude (os_script [CloseEvent None [] []])
          (ClaudeClient ''/vault'') [] [''-p''] ''hi'') =
     Inl (new_Error ''Claude exited with code null'')"
proof -
  have n: "number_to_string 2 = ''2''"
    by (simp add: number_to_string_def nat_to_string.simps digit_char_def)
  show ?thesis
    by (simp add: runClaude_def settle_def os_script_def exit_code_text_def n)
qed

text \<open>
  C5 does not hold of the code. The process that \<open>runClaude\<close> spawns is the login shell,
  with \<open>claude ...\<close> as the command it is to run. When the assistant executable cannot be
  found, the spawn succeeds, the shell reports \<open>command not found\<close> on its standard error
  and exits with status 127, and \<open>getFeedback\<close> fails with the generic error carrying that
  text: not with the error that tells the user to install the tool and to check the
  \<open>PATH\<close>, which is given only when the spawn itself fails with \<open>ENOENT\<close>.
\<close>

theorem missing_executable_gives_generic_error:
  "getFeedback (os_script [CloseEvent (Some 127) [] ''bash: line 1: claude: command not found''])
     (ClaudeClient ''/vault'') [] ''hi'' =
     (Inl (new_Error ''bash: line 1: claude: command not found''), ClaudeClient ''/vault'',
      [create_invocation (os_script []) (ClaudeClient ''/vault'') ''hi'']) \<and>
   program (create_invocation (os_script []) (ClaudeClient ''/vault'') ''hi'') = ''/bin/bash'' \<and>
   new_Error ''bash: line 1: claude: command not found'' \<noteq> new_Error not_found_message \<and>
   \<not> js_includes ''bash: line 1: claude: command not found'' ''install'' \<and>
   \<not> js_includes ''bash: line 1: claude: command not found'' ''PATH''"
proof -
  let ?c = "ClaudeClient ''/vault''"
  let ?sys = "os_script [CloseEvent (Some 127) [] ''bash: line 1: claude: command not found'']"
  have new: "isNewSession ?c"
    by (simp add: isNewSession_def ClaudeClient_def)
  have inv: "create_invocation ?sys ?c p = create_invocation (os_script []) ?c p" for p
    by (simp add: create_invocation_def os_script_def shell_of_def)
  have first: "settle (outcome ?sys ([] @ [create_invocation ?sys ?c ''hi''])) =
      Inl (new_Error ''bash: line 1: claude: command not found'')"
    by (simp add: os_script_def settle_def)
  have no_conflict:
    "\<not> js_includes (message (new_Error ''bash: line 1: claude: command not found'')) ''already in use''"
    by (simp add: new_Error_def)
  have g: "getFeedback ?sys ?c [] ''hi'' =
     (Inl (new_Error ''bash: line 1: claude: command not found''), ?c,
      [create_invocation (os_script []) ?c ''hi''])"
    using first no_conflict by (simp add: getFeedback_new [OF new] inv)
  have shell: "program (create_invocation (os_script []) ?c ''hi'') = ''/bin/bash''"
    by (simp add: create_invocation_def os_script_def shell_of_def)
  have other: "new_Error ''bash: line 1: claude: command not found'' \<noteq> new_Error not_found_message"
    by (simp add: new_Error_def not_found_message_def)
  have guidance: "\<not> js_includes ''bash: line 1: claude: command not found'' ''install''"
    "\<not> js_includes ''bash: line 1: claude: command not found'' ''PATH''"
    by simp_all
  from g shell other guidance show ?thesis
    by simp
qed

text \<open>
  The helper that decides whether a retry is offered does know the shell's message: it
  treats \<open>command not found\<close> like \<open>ENOENT\<close>, as an error that a retry cannot fix.
\<close>

lemma canRetryError_examples:
  "\<not> canRetryError ''bash: line 1: claude: command not found'' \<and>
   \<not> canRetryError ''spawn /bin/bash ENOENT'' \<and>
   canRetryError ''boom''"
  by code_simp

text \<open>
  C1: when the first attempt of \<open>getFeedback\<close> was made for a new session and fails with
  an error whose message contains \<open>already in use\<close>, the call marks the session id as
  known and spawns exactly one more process, in resume mode and with the same prompt; the
  result of the call is the result of that retry, its output or its failure. In every
  other case the call spawns exactly one process, so nothing is retried; and no call
  spawns more than two.
\<close>

theorem getFeedback_retries_once_on_conflict:
  "(isNewSession c \<and>
    settle (outcome sys (spawned @ [create_invocation sys c prompt])) = Inl e \<and>
    js_includes (message e) ''already in use'' \<longrightarrow>
      getFeedback sys c spawned prompt =
        (settle (outcome sys
           (spawned @ [create_invocation sys c prompt, resume_invocation sys c prompt])),
         mark_known c,
         spawned @ [create_invocation sys c prompt, resume_invocation sys c prompt])) \<and>
   (\<not> (isNewSession c \<and>
       (\<exists>e'. settle (outcome sys (spawned @ [create_invocation sys c prompt])) = Inl e' \<and>
          js_includes (message e') ''already in use'')) \<longrightarrow>
      snd (snd (getFeedback sys c spawned prompt)) =
        spawned @ [if isNewSession c then create_invocation sys c prompt
                   else resume_invocation sys c prompt] \<and>
      fst (getFeedback sys c spawned prompt) =
        settle (outcome sys (spawned @ [if isNewSession c then create_invocation sys c prompt
                   else resume_invocation sys c prompt]))) \<and>
   length (snd (snd (getFeedback sys c spawned prompt))) \<le> length spawned + 2 \<and>
   stdin (resume_invocation sys c prompt) = prompt"
proof -
  have prompt: "stdin (resume_invocation sys c prompt) = prompt"
    by (simp add: resume_invocation_def)
  show ?thesis
  proof (cases "isNewSession c")
    case True
    show ?thesis
      by (auto simp: True prompt getFeedback_new [OF True] split: sum.splits)
  next
    case False
    show ?thesis
      by (auto simp: False prompt getFeedback_known [OF False] split: sum.splits)
  qed
qed

theorem getFeedback_retries_once_on_conflict_witness:
  "getFeedback
     (os_script [CloseEvent (Some 1) [] ''Error: Session ID is already in use.'',
                 CloseEvent (Some 0) ''welcome back'' []])
     (ClaudeClient ''/vault'') [] ''hi'' =
     (Inr ''welcome back'', mark_known (ClaudeClient ''/vault''),
      [create_invocation (os_script []) (ClaudeClient ''/vault'') ''hi'',
       resume_invocation (os_script []) (ClaudeClient ''/vault'') ''hi'']) \<and>
   getFeedback (os_script [CloseEvent (Some 1) [] ''boom'', CloseEvent (Some 0) ''unused'' []])
     (ClaudeClient ''/vault'') [] ''hi'' =
     (Inl (new_Error ''boom''), ClaudeClient ''/vault'',
      [create_invocation (os_script []) (ClaudeClient ''/vault'') ''hi''])"
proof -
  let ?c = "ClaudeClient ''/vault''"
  let ?sys = "os_script [CloseEvent (Some 1) [] ''Error: Session ID is already in use.'',
                 CloseEvent (Some 0) ''welcome back'' []]"
  let ?sys' = "os_script [CloseEvent (Some 1) [] ''boom'', CloseEvent (Some 0) ''unused'' []]"
  have new: "isNewSession ?c"
    by (simp add: isNewSession_def ClaudeClient_def)
  have inv: "create_invocation ?sys ?c p = create_invocation (os_script []) ?c p"
    "resume_invocation ?sys ?c p = resume_invocation (os_script []) ?c p"
    "create_invocation ?sys' ?c p = create_invocation (os_script []) ?c p" for p
    by (simp_all add: create_invocation_def resume_invocation_def os_script_def shell_of_def)
  have first: "settle (outcome ?sys ([] @ [create_invocation ?sys ?c ''hi''])) =
      Inl (new_Error ''Error: Session ID is already in use.'')"
    by (simp add: os_script_def settle_def)
  have conflict: "js_includes (message (new_Error ''Error: Session ID is already in use.'')) ''already in use''"
    by (simp add: new_Error_def)
  have retry: "settle (outcome ?sys ([] @ [create_invocation ?sys ?c ''hi'', resume_invocation ?sys ?c ''hi''])) =
      Inr ''welcome back''"
    by (simp add: os_script_def settle_def js_trim_def js_trimEnd_def js_trimStart_def
        is_whitespace_def)
  have first': "settle (outcome ?sys' ([] @ [create_invocation ?sys' ?c ''hi''])) =
      Inl (new_Error ''boom'')"
    by (simp add: os_script_def settle_def)
  have no_conflict: "\<not> js_includes (message (new_Error ''boom'')) ''already in use''"
    by (simp add: new_Error_def)
  have a: "getFeedback ?sys ?c [] ''hi'' =
      (Inr ''welcome back'', mark_known ?c,
       [create_invocation (os_script []) ?c ''hi'', resume_invocation (os_script []) ?c ''hi''])"
    using getFeedback_retries_once_on_conflict
      [of ?c ?sys "[]" "''hi''" "new_Error ''Error: Session ID is already in use.''"]
      new first conflict retry
    by (simp add: inv)
  have b: "getFeedback ?sys' ?c [] ''hi'' =
      (Inl (new_Error ''boom''), ?c, [create_invocation (os_script []) ?c ''hi''])"
  proof -
    have "snd (snd (getFeedback ?sys' ?c [] ''hi'')) = [create_invocation ?sys' ?c ''hi''] \<and>
          fst (getFeedback ?sys' ?c [] ''hi'') = Inl (new_Error ''boom'')"
      using getFeedback_retries_once_on_conflict [of ?c ?sys' "[]" "''hi''"]
        new first' no_conflict
      by simp
    moreover have "fst (snd (getFeedback ?sys' ?c [] ''hi'')) = ?c"
      using first' no_conflict by (simp add: getFeedback_new [OF new])
    ultimately show ?thesis
      by (cases "getFeedback ?sys' ?c [] ''hi''") (simp add: inv)
  qed
  from a b show ?thesis by simp
qed

text \<open>
  C10: when the conflict-recovery path is taken and the retry fails too, the call fails
  with the retry's error, but the session id is in the registry: \<open>isNewSession\<close> is false
  afterwards, and every later call of \<open>getFeedback\<close> for the workspace spawns one process
  in resume mode, never one that creates the session.
\<close>

theorem conflict_retry_failure_keeps_session_known:
  assumes "isNewSession c"
    and "settle (outcome sys (spawned @ [create_invocation sys c prompt])) = Inl e"
    and "js_includes (message e) ''already in use''"
    and "settle (outcome sys
           (spawned @ [create_invocation sys c prompt, resume_invocation sys c prompt])) = Inl e'"
  shows "getFeedback sys c spawned prompt =
           (Inl e', mark_known c,
            spawned @ [create_invocation sys c prompt, resume_invocation sys c prompt]) \<and>
         \<not> isNewSession (mark_known c) \<and>
         getSessionId (vaultPath c) \<in> activeSessions (mark_known c) \<and>
         fst (getFeedback_calls sys (mark_known c) spawned2 prompts) = mark_known c \<and>
         snd (snd (getFeedback sys (fst (getFeedback_calls sys (mark_known c) spawned2 prompts))
                     spawned3 prompt2)) =
           spawned3 @ [resume_invocation sys c prompt2]"
proof -
  have g: "getFeedback sys c spawned prompt =
           (Inl e', mark_known c,
            spawned @ [create_invocation sys c prompt, resume_invocation sys c prompt])"
    using assms by (simp add: getFeedback_new)
  have known: "\<not> isNewSession (mark_known c)"
    by simp
  have stay: "fst (getFeedback_calls sys (mark_known c) spawned2 prompts) = mark_known c"
    using known by (rule getFeedback_calls_keeps_known)
  have later: "snd (snd (getFeedback sys (mark_known c) spawned3 prompt2)) =
      spawned3 @ [resume_invocation sys c prompt2]"
    by (simp add: getFeedback_known [OF known] split: sum.splits)
  have sid: "getSessionId (vaultPath c) \<in> activeSessions (mark_known c)"
    by (simp add: mark_known_def)
  from g known sid stay later show ?thesis
    by simp
qed

theorem conflict_retry_failure_keeps_session_known_witness:
  "getFeedback
     (os_script [CloseEvent (Some 1) [] ''Error: Session ID is already in use.'',
                 CloseEvent (Some 1) [] ''No conversation found'',
                 CloseEvent (Some 0) ''fine'' []])
     (ClaudeClient ''/vault'') [] ''hi'' =
     (Inl (new_Error ''No conversation found''), mark_known (ClaudeClient ''/vault''),
      [create_invocation (os_script []) (ClaudeClient ''/vault'') ''hi'',
       resume_invocation (os_script []) (ClaudeClient ''/vault'') ''hi'']) \<and>
   \<not> isNewSession (mark_known (ClaudeClient ''/vault'')) \<and>
   snd (snd (getFeedback
     (os_script [CloseEvent (Some 1) [] ''Error: Session ID is already in use.'',
                 CloseEvent (Some 1) [] ''No conversation found'',
                 CloseEvent (Some 0) ''fine'' []])
     (mark_known (ClaudeClient ''/vault''))
     [create_invocation (os_script []) (ClaudeClient ''/vault'') ''hi'',
      resume_invocation (os_script []) (ClaudeClient ''/vault'') ''hi'']
     ''again'')) =
     [create_invocation (os_script []) (ClaudeClient ''/vault'') ''hi'',
      resume_invocation (os_script []) (ClaudeClient ''/vault'') ''hi'',
      resume_invocation (os_script []) (ClaudeClient ''/vault'') ''again'']"
proof -
  let ?c = "ClaudeClient ''/vault''"
  let ?sys = "os_script [CloseEvent (Some 1) [] ''Error: Session ID is already in use.'',
                 CloseEvent (Some 1) [] ''No conversation found'',
                 CloseEvent (Some 0) ''fine'' []]"
  have new: "isNewSession ?c"
    by (simp add: isNewSession_def ClaudeClient_def)
  have inv: "create_invocation ?sys ?c p = create_invocation (os_script []) ?c p"
    "resume_invocation ?sys ?c p = resume_invocation (os_script []) ?c p"
    "resume_invocation ?sys (mark_known ?c) p = resume_invocation (os_script []) ?c p" for p
    by (simp_all add: create_invocation_def resume_invocation_def os_script_def shell_of_def)
  have first: "settle (outcome ?sys ([] @ [create_invocation ?sys ?c ''hi''])) =
      Inl (new_Error ''Error: Session ID is already in use.'')"
    by (simp add: os_script_def settle_def)
  have conflict: "js_includes (message (new_Error ''Error: Session ID is already in use.'')) ''already in use''"
    by (simp add: new_Error_def)
  have retry: "settle (outcome ?sys ([] @ [create_invocation ?sys ?c ''hi'', resume_invocation ?sys ?c ''hi''])) =
      Inl (new_Error ''No conversation found'')"
    by (simp add: os_script_def settle_def)
  show ?thesis
    using conflict_retry_failure_keeps_session_known [OF new first conflict retry,
        of "[]" "[]"
          "[create_invocation (os_script []) ?c ''hi'', resume_invocation (os_script []) ?c ''hi'']"
          "''again''"]
    by (simp add: inv)
qed

section \<open>Properties of the session id\<close>

lemma md5_digest_length: "length (md5_digest msg) = 16"
  by (simp add: md5_digest_def Let_def le_bytes32_def split: prod.splits)

lemma hex_of_bytes_length: "length (concat (map hex_of_byte bs)) = 2 * length bs"
  by (induction bs) (simp_all add: hex_of_byte_def)

lemma md5_hex_length: "length (md5_hex s) = 32"
  by (simp add: md5_hex_def hex_of_bytes_length md5_digest_length)

lemma hex_digit_in: "d < 16 \<Longrightarrow> hex_digit d \<in> set hex_digits"
proof -
  assume "d < 16"
  then have "d < length hex_digits"
    by (simp add: hex_digits_def)
  then have "hex_digits ! d \<in> set hex_digits"
    by (rule nth_mem)
  then show ?thesis
    by (simp add: hex_digit_def hex_digits_def)
qed

lemma high_digit_bound: "unat (drop_bit 4 (b :: byte)) < 16"
proof -
  have "unat b < 2 ^ 8"
    using unsigned_less [of b, where ?'a = nat] by simp
  then show ?thesis
    by (simp add: drop_bit_eq_div unat_div)
qed

lemma low_digit_bound: "unat ((b :: byte) AND 15) < 16"
proof -
  have "b AND 15 \<le> 15"
    by (rule word_and_le1)
  then have "unat (b AND 15) \<le> 15"
    by (simp add: word_le_nat_alt)
  then show ?thesis by simp
qed

lemma hex_of_byte_digits: "set (hex_of_byte b) \<subseteq> set hex_digits"
  by (simp add: hex_of_byte_def hex_digit_in high_digit_bound low_digit_bound)

lemma md5_hex_digits: "set (md5_hex s) \<subseteq> set hex_digits"
  using hex_of_byte_digits by (auto simp: md5_hex_def)

lemma getSessionId_format:
  "getSessionId v =
     (let h = md5_hex (''obsidian-copilot:'' @ v)
      in take 8 h @ ''-'' @ take 4 (drop 8 h) @ ''-'' @ take 4 (drop 12 h) @ ''-'' @
         take 4 (drop 16 h) @ ''-'' @ drop 20 h)"
  by (simp add: getSessionId_def Let_def js_slice_def slice_index_def md5_hex_length)

lemma filter_hyphen_hex:
  assumes "set xs \<subseteq> set hex_digits"
  shows "filter (\<lambda>ch. ch \<noteq> CHR ''-'') xs = xs"
proof -
  have "CHR ''-'' \<notin> set hex_digits"
    by (simp add: hex_digits_def)
  with assms have "\<forall>x \<in> set xs. x \<noteq> CHR ''-''"
    by auto
  then show ?thesis by simp
qed

lemma regroup:
  "take 8 h @ take 4 (drop 8 h) @ take 4 (drop 12 h) @ take 4 (drop 16 h) @ drop 20 h = h"
proof -
  have a: "take 4 (drop 16 h) @ drop 20 h = drop 16 h"
    using append_take_drop_id [of 4 "drop 16 h"] by simp
  have b: "take 4 (drop 12 h) @ drop 16 h = drop 12 h"
    using append_take_drop_id [of 4 "drop 12 h"] by simp
  have c: "take 4 (drop 8 h) @ drop 12 h = drop 8 h"
    using append_take_drop_id [of 4 "drop 8 h"] by simp
  show ?thesis
    by (simp only: a b c append_take_drop_id)
qed

lemma hyphens_removed:
  assumes "set h \<subseteq> set hex_digits"
  shows "filter (\<lambda>ch. ch \<noteq> CHR ''-'')
           (take 8 h @ ''-'' @ take 4 (drop 8 h) @ ''-'' @ take 4 (drop 12 h) @ ''-'' @
            take 4 (drop 16 h) @ ''-'' @ drop 20 h) = h"
proof -
  have sub: "set (take n (drop m h)) \<subseteq> set hex_digits" "set (drop m h) \<subseteq> set hex_digits"
    "set (take n h) \<subseteq> set hex_digits" for n m
    using assms by (meson set_take_subset set_drop_subset subset_trans)+
  show ?thesis
    by (simp add: filter_hyphen_hex sub regroup)
qed

lemma getSessionId_digits:
  "filter (\<lambda>ch. ch \<noteq> CHR ''-'') (getSessionId v) = md5_hex (''obsidian-copilot:'' @ v)"
  unfolding getSessionId_format Let_def
  by (rule hyphens_removed) (rule md5_hex_digits)

text \<open>A test vector of RFC 1321, and the digest behind the session id of \<open>/vault\<close>.\<close>

lemma md5_hex_abc: "md5_hex ''abc'' = ''900150983cd24fb0d6963f7d28e17f72''"
  by code_simp

lemma md5_hex_vault: "md5_hex ''obsidian-copilot:/vault'' = ''27244f2ba603f010f57ea31f32af043d''"
  by code_simp

text \<open>
  C6: the session id is a function of the workspace identity alone: the MD5 digest of
  \<open>obsidian-copilot:\<close> followed by the identity, 32 hexadecimal digits (128 bits) written
  in the groups 8-4-4-4-12. The id that \<open>getFeedback\<close> puts on the command line is the id
  of the client's workspace, whatever the registry, the prompt and the processes spawned
  before are.
\<close>

theorem getSessionId_deterministic:
  "getSessionId v =
     (let h = md5_hex (''obsidian-copilot:'' @ v)
      in take 8 h @ ''-'' @ take 4 (drop 8 h) @ ''-'' @ take 4 (drop 12 h) @ ''-'' @
         take 4 (drop 16 h) @ ''-'' @ drop 20 h) \<and>
   length (md5_hex (''obsidian-copilot:'' @ v)) = 32 \<and>
   set (md5_hex (''obsidian-copilot:'' @ v)) \<subseteq> set hex_digits \<and>
   length (getSessionId v) = 36 \<and>
   filter (\<lambda>ch. ch \<noteq> CHR ''-'') (getSessionId v) = md5_hex (''obsidian-copilot:'' @ v) \<and>
   argv (hd (drop (length spawned) (snd (snd (getFeedback sys c spawned prompt))))) =
     [''-l'', ''-c'',
      ''claude '' @ (if isNewSession c then ''--session-id '' else ''--resume '') @
      getSessionId (vaultPath c) @ '' -p --allowedTools Read,Grep,Glob,LS'']"
proof -
  have len: "length (getSessionId v) = 36"
    by (simp add: getSessionId_format Let_def md5_hex_length)
  have cmd: "argv (hd (drop (length spawned) (snd (snd (getFeedback sys c spawned prompt))))) =
     [''-l'', ''-c'',
      ''claude '' @ (if isNewSession c then ''--session-id '' else ''--resume '') @
      getSessionId (vaultPath c) @ '' -p --allowedTools Read,Grep,Glob,LS'']"
  proof (cases "isNewSession c")
    case True
    then show ?thesis
      by (simp add: getFeedback_new create_invocation_def split: sum.splits)
  next
    case False
    then show ?thesis
      by (simp add: getFeedback_known resume_invocation_def split: sum.splits)
  qed
  show ?thesis
    by (intro conjI getSessionId_format md5_hex_length md5_hex_digits len getSessionId_digits cmd)
qed

theorem getSessionId_deterministic_witness:
  "getSessionId ''/vault'' = ''27244f2b-a603-f010-f57e-a31f32af043d''"
  using getSessionId_deterministic [of "''/vault''"]
  by (simp add: md5_hex_vault Let_def)

section \<open>Properties of the query state\<close>

text \<open>
  What \<open>cancelPendingQueries\<close> does depends on the status that the published API has
  seen, not on the state itself: a cancel that comes before React has rendered the
  \<open>querying\<close> state and published the API again leaves the state as it is, and a cancel
  through an API that still sees \<open>querying\<close> resets a result that has arrived meanwhile.
\<close>

lemma cancel_reads_published_status:
  "queryState (app_run initial_app_state
     [ClientCreated, ApiPublished, QueryStarted 1, CancelPendingQueries]) = Querying \<and>
   queryState (app_run initial_app_state
     [ClientCreated, ApiPublished, QueryStarted 1, Rendered, ApiPublished,
      CancelPendingQueries]) = Idle \<and>
   queryState (app_run initial_app_state
     [ClientCreated, ApiPublished, QueryStarted 1, Rendered, ApiPublished,
      QuerySettled (Inr ''answer'') 2, CancelPendingQueries]) = Idle"
  by (simp add: app_run_def initial_app_state_def status_def)




end
